theory Spec2Isabelle
  imports Complex_Main
begin

section \<open>Values, errors and collaborators\<close>

text \<open>
  The module \<^verbatim>\<open>density_areas.py\<close> is glue code around two libraries: a computer
  algebra engine (SymPy, imported as \<^verbatim>\<open>sym\<close>) and a quadrature engine (SciPy's
  \<^verbatim>\<open>quad\<close> and \<^verbatim>\<open>dblquad\<close>). Neither library is part of the repository, so both
  are parameters of the model. Every call into them may raise; an exception is the
  \<open>Inl\<close> branch of a sum. Python floats are modelled as reals, \<^verbatim>\<open>np.pi\<close> as \<open>pi\<close>.
\<close>

datatype error =
    ExpressionParseError
  | DifferentiationError
  | IntegrationUnsupportedError
  | LambdifyError
  | FloatConversionError
  | QuadratureError
  | IndexError

text \<open>The Python values a caller may pass as the flag \<^verbatim>\<open>numerical\<close>.\<close>

datatype pyval = PyNone | PyBool bool | PyInt int | PyFloat real | PyStr string

text \<open>\<^verbatim>\<open>numerical == True\<close>: Python compares \<^verbatim>\<open>True\<close> with numbers by value.\<close>

fun eq_True :: "pyval \<Rightarrow> bool" where
  "eq_True PyNone = False"
| "eq_True (PyBool b) = b"
| "eq_True (PyInt i) = (i = 1)"
| "eq_True (PyFloat x) = (x = 1)"
| "eq_True (PyStr s) = False"

text \<open>Python truthiness, what \<^verbatim>\<open>if numerical:\<close> would have tested.\<close>

fun truthy :: "pyval \<Rightarrow> bool" where
  "truthy PyNone = False"
| "truthy (PyBool b) = b"
| "truthy (PyInt i) = (i \<noteq> 0)"
| "truthy (PyFloat x) = (x \<noteq> 0)"
| "truthy (PyStr s) = (s \<noteq> [])"

text \<open>A symbol created by \<^verbatim>\<open>sym.symbols\<close> is modelled by its name.\<close>

type_synonym symbol = string

text \<open>
  The algebra collaborator over a type \<open>'e\<close> of symbolic expressions. The Python
  operators \<^verbatim>\<open>*\<close>, \<^verbatim>\<open>-\<close>, \<^verbatim>\<open>/\<close>, \<^verbatim>\<open>**\<close> on expressions are the ring operations of
  \<open>'e\<close>; Python integers met by an expression become numerals of \<open>'e\<close>.
\<close>

record 'e algebra =
  sympify :: "string \<Rightarrow> error + 'e"
  as_expr :: "symbol \<Rightarrow> 'e"
  diff :: "'e \<Rightarrow> symbol \<Rightarrow> error + 'e"
  integrate :: "'e \<Rightarrow> symbol \<times> 'e \<times> 'e \<Rightarrow> error + 'e"
  sin_expr :: "'e \<Rightarrow> 'e"
  pi_expr :: "'e"
  to_float :: "'e \<Rightarrow> error + real"
  lambdify :: "symbol list \<Rightarrow> 'e \<Rightarrow> error + (real \<Rightarrow> real \<Rightarrow> error + real)"

text \<open>
  The quadrature collaborator. \<^verbatim>\<open>quad(func, a, b)\<close> returns the pair (value, error
  estimate). \<^verbatim>\<open>dblquad(func, a, b, gfun, hfun)\<close> takes a callable of two arguments and
  two boundary callables. An integrand is a Python callable and may itself raise.
\<close>

type_synonym quad_fn = "(real \<Rightarrow> error + real) \<Rightarrow> real \<Rightarrow> real \<Rightarrow> error + real \<times> real"

type_synonym dblquad_fn =
  "(real \<Rightarrow> real \<Rightarrow> error + real) \<Rightarrow> real \<Rightarrow> real \<Rightarrow> (real \<Rightarrow> real) \<Rightarrow> (real \<Rightarrow> real)
    \<Rightarrow> error + real \<times> real"

text \<open>What a bracket evaluator returns: a symbolic expression or a pair of floats.\<close>

datatype 'e bracket_result = Exact 'e | Numeric "real \<times> real"

text \<open>
  An exception raised by a call ends the function: the rest of the body runs only on a
  returned value.
\<close>

definition and_then :: "error + 'a \<Rightarrow> ('a \<Rightarrow> error + 'b) \<Rightarrow> error + 'b" where
  "and_then r k = (case r of Inl e \<Rightarrow> Inl e | Inr v \<Rightarrow> k v)"

section \<open>The bracket evaluators\<close>

text \<open>
  Each definition follows its source function line by line. The four \<^verbatim>\<open>sympify\<close>
  calls come first, in the order tau, rho, function1, function2; the four \<^verbatim>\<open>diff\<close>
  calls follow in Python's left-to-right evaluation order; then the branch on
  \<^verbatim>\<open>numerical == True\<close>.
\<close>

definition PoissonWasserstein_R2 ::
  "('e::comm_ring_1) algebra \<Rightarrow> dblquad_fn \<Rightarrow> string \<Rightarrow> string \<Rightarrow> string \<Rightarrow> string \<Rightarrow> pyval
    \<Rightarrow> error + 'e bracket_result" where
  "PoissonWasserstein_R2 eng dblquad tau rho function1 function2 numerical =
    (let x1 = ''x1''; x2 = ''x2'' in
     and_then (sympify eng tau) (\<lambda>tau.
     and_then (sympify eng rho) (\<lambda>rho.
     and_then (sympify eng function1) (\<lambda>ff.
     and_then (sympify eng function2) (\<lambda>hh.
     and_then (diff eng ff x1) (\<lambda>dff_dx1.
     and_then (diff eng hh x2) (\<lambda>dhh_dx2.
     and_then (diff eng hh x1) (\<lambda>dhh_dx1.
     and_then (diff eng ff x2) (\<lambda>dff_dx2.
     let bracket_ff_hh = (dff_dx1 * dhh_dx2 - dhh_dx1 * dff_dx2) * tau;
         integrand = bracket_ff_hh * rho
     in if eq_True numerical
        then
          and_then (lambdify eng [x1, x2] integrand) (\<lambda>integrand.
          and_then (dblquad integrand 0 1 (\<lambda>x2. 0) (\<lambda>x2. 1)) (\<lambda>r.
          Inr (Numeric r)))
        else
          and_then (integrate eng integrand (x1, 0, 1)) (\<lambda>integrand.
          and_then (integrate eng integrand (x2, 0, 1)) (\<lambda>integral.
          Inr (Exact integral))))))))))))"

text \<open>
  On the torus the numerical branch hands the symbolic bound \<^verbatim>\<open>2*sym.pi\<close> to
  \<^verbatim>\<open>dblquad\<close>, which converts it to a float (\<open>to_float\<close>).
\<close>

definition PoissonWasserstein_T2 ::
  "('e::{comm_ring_1,inverse}) algebra \<Rightarrow> dblquad_fn \<Rightarrow> string \<Rightarrow> string \<Rightarrow> string \<Rightarrow> string
    \<Rightarrow> pyval \<Rightarrow> error + 'e bracket_result" where
  "PoissonWasserstein_T2 eng dblquad tau rho function1 function2 numerical =
    (let theta1 = ''theta1''; theta2 = ''theta2'' in
     and_then (sympify eng tau) (\<lambda>tau.
     and_then (sympify eng rho) (\<lambda>rho.
     and_then (sympify eng function1) (\<lambda>ff.
     and_then (sympify eng function2) (\<lambda>hh.
     and_then (diff eng ff theta1) (\<lambda>dff_d1.
     and_then (diff eng hh theta2) (\<lambda>dhh_d2.
     and_then (diff eng hh theta1) (\<lambda>dhh_d1.
     and_then (diff eng ff theta2) (\<lambda>dff_d2.
     let bracket_ff_hh = (dff_d1 * dhh_d2 - dhh_d1 * dff_d2) * tau;
         integrand = bracket_ff_hh * rho
     in if eq_True numerical
        then
          and_then (lambdify eng [theta1, theta2] (1 / (4 * pi_expr eng ^ 2) * integrand))
            (\<lambda>integrand.
          and_then (to_float eng (2 * pi_expr eng)) (\<lambda>b.
          and_then (dblquad integrand 0 b (\<lambda>theta2. 0) (\<lambda>theta2. b)) (\<lambda>r.
          Inr (Numeric r))))
        else
          and_then (integrate eng integrand (theta1, 0, 2 * pi_expr eng)) (\<lambda>integrand.
          and_then (integrate eng integrand (theta2, 0, 2 * pi_expr eng)) (\<lambda>integral.
          Inr (Exact (1 / (4 * pi_expr eng ^ 2) * integral)))))))))))))"

definition PoissonWasserstein_S2 ::
  "('e::{comm_ring_1,inverse}) algebra \<Rightarrow> dblquad_fn \<Rightarrow> string \<Rightarrow> string \<Rightarrow> string \<Rightarrow> string
    \<Rightarrow> pyval \<Rightarrow> error + 'e bracket_result" where
  "PoissonWasserstein_S2 eng dblquad tau rho function1 function2 numerical =
    (let theta = ''theta''; phi = ''phi'' in
     and_then (sympify eng tau) (\<lambda>tau.
     and_then (sympify eng rho) (\<lambda>rho.
     and_then (sympify eng function1) (\<lambda>ff.
     and_then (sympify eng function2) (\<lambda>hh.
     and_then (diff eng ff theta) (\<lambda>dff_dtheta.
     and_then (diff eng hh phi) (\<lambda>dhh_dphi.
     and_then (diff eng hh theta) (\<lambda>dhh_dtheta.
     and_then (diff eng ff phi) (\<lambda>dff_dphi.
     let bracket_ff_hh = (dff_dtheta * dhh_dphi - dhh_dtheta * dff_dphi) * tau;
         integrand = bracket_ff_hh * rho * sin_expr eng (as_expr eng theta)
     in if eq_True numerical
        then
          and_then (lambdify eng [theta, phi] (1 / (4 * pi_expr eng) * integrand))
            (\<lambda>integrand.
          and_then (dblquad integrand 0 (2 * pi) (\<lambda>phi. 0) (\<lambda>phi. pi)) (\<lambda>r.
          Inr (Numeric r)))
        else
          and_then (integrate eng integrand (theta, 0, pi_expr eng)) (\<lambda>integrand.
          and_then (integrate eng integrand (phi, 0, 2 * pi_expr eng)) (\<lambda>integral.
          Inr (Exact (1 / (4 * pi_expr eng) * integral)))))))))))))"

section \<open>The area integrator\<close>

text \<open>Python's \<^verbatim>\<open>xs[i]\<close> for a non-negative index: IndexError out of range.\<close>

definition index :: "'a list \<Rightarrow> nat \<Rightarrow> error + 'a" where
  "index xs i = (if i < length xs then Inr (xs ! i) else Inl IndexError)"

text \<open>
  The three nested closures of \<^verbatim>\<open>area_Omega_S2\<close>, with the variables they capture
  (\<^verbatim>\<open>Omega\<close>, \<^verbatim>\<open>I_1\<close> and the imported \<^verbatim>\<open>quad\<close>) as parameters. Each keeps component
  \<^verbatim>\<open>[0]\<close> of the pair \<^verbatim>\<open>quad\<close> returns. \<^verbatim>\<open>I_1[0]\<close> and \<^verbatim>\<open>I_1[1]\<close> are read when
  \<^verbatim>\<open>integral_s\<close> is called.
\<close>

definition integral_theta ::
  "quad_fn \<Rightarrow> (real \<Rightarrow> real \<Rightarrow> real \<Rightarrow> real \<Rightarrow> real) \<Rightarrow> real \<Rightarrow> real \<Rightarrow> real \<Rightarrow> error + real" where
  "integral_theta quad Omega phi s t =
     map_sum id fst (quad (\<lambda>theta. Inr (Omega theta phi s t)) 0 pi)"

definition integral_phi ::
  "quad_fn \<Rightarrow> (real \<Rightarrow> real \<Rightarrow> real \<Rightarrow> real \<Rightarrow> real) \<Rightarrow> real \<Rightarrow> real \<Rightarrow> error + real" where
  "integral_phi quad Omega s t =
     map_sum id fst (quad (\<lambda>phi. integral_theta quad Omega phi s t) 0 (2 * pi))"

definition integral_s ::
  "quad_fn \<Rightarrow> (real \<Rightarrow> real \<Rightarrow> real \<Rightarrow> real \<Rightarrow> real) \<Rightarrow> real list \<Rightarrow> real \<Rightarrow> error + real" where
  "integral_s quad Omega I_1 t =
     and_then (index I_1 0) (\<lambda>a.
     and_then (index I_1 1) (\<lambda>b.
     map_sum id fst (quad (\<lambda>s. integral_phi quad Omega s t) a b)))"

text \<open>The last quadrature, over \<open>t\<close>; its pair is returned whole.\<close>

definition quadruple_integral ::
  "quad_fn \<Rightarrow> (real \<Rightarrow> real \<Rightarrow> real \<Rightarrow> real \<Rightarrow> real) \<Rightarrow> real list \<Rightarrow> real list
    \<Rightarrow> error + real \<times> real" where
  "quadruple_integral quad Omega I_1 I_2 =
     and_then (index I_2 0) (\<lambda>c.
     and_then (index I_2 1) (\<lambda>d.
     quad (\<lambda>t. map_sum id (\<lambda>v. (1 / (4 * pi)) * v) (integral_s quad Omega I_1 t)) c d))"

text \<open>
  The function itself: its first statement defines a local \<^verbatim>\<open>Omega\<close>, which shadows
  the parameter of the same name.
\<close>

definition area_Omega_S2 :: "quad_fn \<Rightarrow> 'a \<Rightarrow> real list \<Rightarrow> real list \<Rightarrow> error + real \<times> real" where
  "area_Omega_S2 quad Omega I_1 I_2 =
     (let Omega = (\<lambda>theta phi s t. sin theta * cos phi) in
      let area = quadruple_integral quad Omega I_1 I_2 in
      area)"

section \<open>Reference collaborators\<close>

text \<open>
  The theorems below hold for every algebra engine and every quadrature that satisfy
  the hypotheses they name. To show that these hypotheses can be met, and to run the
  code on the concrete scenarios of the specification, this section builds one instance
  of each collaborator: an exact calculus on the reals. An expression is identified with
  the function it denotes, from valuations of its symbols to the reals.
\<close>

datatype sexpr = SExpr (denote: "(symbol \<Rightarrow> real) \<Rightarrow> real")

instantiation sexpr :: "{comm_ring_1,inverse}"
begin

definition zero_sexpr_def: "0 = SExpr (\<lambda>env. 0)"
definition one_sexpr_def: "1 = SExpr (\<lambda>env. 1)"
definition plus_sexpr_def: "a + b = SExpr (\<lambda>env. denote a env + denote b env)"
definition minus_sexpr_def: "a - b = SExpr (\<lambda>env. denote a env - denote b env)"
definition uminus_sexpr_def: "- a = SExpr (\<lambda>env. - denote a env)"
definition times_sexpr_def: "a * b = SExpr (\<lambda>env. denote a env * denote b env)"
definition inverse_sexpr_def: "inverse a = SExpr (\<lambda>env. inverse (denote a env))"
definition divide_sexpr_def: "a div b = SExpr (\<lambda>env. denote a env / denote b env)"

instance
proof
  fix a b c :: sexpr
  show "a * b * c = a * (b * c)" by (simp add: times_sexpr_def mult.assoc)
  show "a * b = b * a" by (simp add: times_sexpr_def mult.commute)
  show "1 * a = a" by (simp add: times_sexpr_def one_sexpr_def)
  show "a + b + c = a + (b + c)" by (simp add: plus_sexpr_def add.assoc)
  show "a + b = b + a" by (simp add: plus_sexpr_def add.commute)
  show "0 + a = a" by (simp add: plus_sexpr_def zero_sexpr_def)
  show "- a + a = 0" by (simp add: plus_sexpr_def uminus_sexpr_def zero_sexpr_def)
  show "a - b = a + - b" by (simp add: plus_sexpr_def uminus_sexpr_def minus_sexpr_def)
  show "(a + b) * c = a * c + b * c"
    by (simp add: plus_sexpr_def times_sexpr_def distrib_right)
  show "(0::sexpr) \<noteq> 1"
    by (simp add: zero_sexpr_def one_sexpr_def fun_eq_iff)
qed

end

text \<open>
  Integration is Newton's: the integral of \<open>g\<close> from \<open>a\<close> to \<open>b\<close> is \<open>G b - G a\<close> for an
  antiderivative \<open>G\<close> of \<open>g\<close> on the whole line, and is undefined when there is none.
\<close>

definition antiderivative :: "(real \<Rightarrow> real) \<Rightarrow> (real \<Rightarrow> real) \<Rightarrow> bool" where
  "antiderivative G g = (\<forall>x. (G has_real_derivative g x) (at x))"

definition newton_integral :: "(real \<Rightarrow> real) \<Rightarrow> real \<Rightarrow> real \<Rightarrow> real option" where
  "newton_integral g a b =
     (if \<exists>G. antiderivative G g
      then Some (THE r. \<exists>G. antiderivative G g \<and> r = G b - G a)
      else None)"

text \<open>
  The reference parser reads the atoms the scenarios use: a decimal numeral or a
  symbol name. Everything else is a parse error.
\<close>

definition is_digit :: "char \<Rightarrow> bool" where
  "is_digit c = (c \<in> set ''0123456789'')"

definition is_letter :: "char \<Rightarrow> bool" where
  "is_letter c = (c \<in> set ''abcdefghijklmnopqrstuvwxyzABCDEFGHIJKLMNOPQRSTUVWXYZ_'')"

definition digit_value :: "char \<Rightarrow> nat" where
  "digit_value c = length (takeWhile (\<lambda>d. d \<noteq> c) ''0123456789'')"

definition decimal :: "string \<Rightarrow> nat" where
  "decimal s = foldl (\<lambda>n c. 10 * n + digit_value c) 0 s"

definition is_number :: "string \<Rightarrow> bool" where
  "is_number s = (s \<noteq> [] \<and> list_all is_digit s)"

definition is_name :: "string \<Rightarrow> bool" where
  "is_name s = (s \<noteq> [] \<and> is_letter (hd s) \<and> list_all (\<lambda>c. is_letter c \<or> is_digit c) s)"

definition exact_sympify :: "string \<Rightarrow> error + sexpr" where
  "exact_sympify s =
     (if is_number s then Inr (of_nat (decimal s))
      else if is_name s then Inr (SExpr (\<lambda>env. env s))
      else Inl ExpressionParseError)"

definition exact_diff :: "sexpr \<Rightarrow> symbol \<Rightarrow> error + sexpr" where
  "exact_diff e v =
     (if \<exists>d. \<forall>env. ((\<lambda>x. denote e (env(v := x))) has_real_derivative d env) (at (env v))
      then Inr (SExpr (THE d. \<forall>env.
                  ((\<lambda>x. denote e (env(v := x))) has_real_derivative d env) (at (env v))))
      else Inl DifferentiationError)"

definition exact_integrate :: "sexpr \<Rightarrow> symbol \<times> sexpr \<times> sexpr \<Rightarrow> error + sexpr" where
  "exact_integrate e = (\<lambda>(v, a, b).
     if \<forall>env. newton_integral (\<lambda>x. denote e (env(v := x))) (denote a env) (denote b env) \<noteq> None
     then Inr (SExpr (\<lambda>env.
            the (newton_integral (\<lambda>x. denote e (env(v := x))) (denote a env) (denote b env))))
     else Inl IntegrationUnsupportedError)"

definition exact_float :: "sexpr \<Rightarrow> error + real" where
  "exact_float e =
     (if \<forall>env. denote e env = denote e (\<lambda>v. 0) then Inr (denote e (\<lambda>v. 0))
      else Inl FloatConversionError)"

text \<open>A lambdified expression raises when called if a symbol is left without a value.\<close>

definition exact_lambdify :: "symbol list \<Rightarrow> sexpr \<Rightarrow> error + (real \<Rightarrow> real \<Rightarrow> error + real)" where
  "exact_lambdify args e =
     (case args of
        [v1, v2] \<Rightarrow>
          Inr (\<lambda>x y.
            if \<forall>env. denote e (env(v1 := x, v2 := y)) = denote e ((\<lambda>v. 0)(v1 := x, v2 := y))
            then Inr (denote e ((\<lambda>v. 0)(v1 := x, v2 := y)))
            else Inl LambdifyError)
      | _ \<Rightarrow> Inl LambdifyError)"

definition exact_engine :: "sexpr algebra" where
  "exact_engine =
     \<lparr> sympify = exact_sympify,
       as_expr = (\<lambda>v. SExpr (\<lambda>env. env v)),
       diff = exact_diff,
       integrate = exact_integrate,
       sin_expr = (\<lambda>e. SExpr (\<lambda>env. sin (denote e env))),
       pi_expr = SExpr (\<lambda>env. pi),
       to_float = exact_float,
       lambdify = exact_lambdify \<rparr>"

text \<open>
  The reference quadrature returns the Newton integral with error estimate 0, and an
  error of the integrand when the integrand raises.
\<close>

definition newton_quad :: quad_fn where
  "newton_quad f a b =
     (if \<exists>x e. f x = Inl e then Inl (SOME e. \<exists>x. f x = Inl e)
      else case newton_integral (\<lambda>x. projr (f x)) a b of
             Some r \<Rightarrow> Inr (r, 0)
           | None \<Rightarrow> Inl QuadratureError)"

text \<open>
  SciPy documents \<^verbatim>\<open>dblquad(func, a, b, gfun, hfun)\<close> as the integral of
  \<^verbatim>\<open>func(y, x)\<close> for \<open>x\<close> from \<open>a\<close> to \<open>b\<close> and \<open>y\<close> from \<open>gfun x\<close> to \<open>hfun x\<close>: the first
  argument of the callable is the inner variable. A double quadrature built from a
  one-dimensional one in this way:
\<close>

definition dblquad_nested :: "quad_fn \<Rightarrow> dblquad_fn" where
  "dblquad_nested quad func a b gfun hfun =
     quad (\<lambda>x. map_sum id fst (quad (\<lambda>y. func y x) (gfun x) (hfun x))) a b"

section \<open>Properties asked of the collaborators\<close>

text \<open>The constant \<open>1\<close> and the two coordinate names parse to themselves.\<close>

definition parses_scenario :: "('e::comm_ring_1) algebra \<Rightarrow> symbol \<Rightarrow> symbol \<Rightarrow> bool" where
  "parses_scenario eng c1 c2 \<longleftrightarrow>
     sympify eng ''1'' = Inr 1 \<and> sympify eng c1 = Inr (as_expr eng c1) \<and>
     sympify eng c2 = Inr (as_expr eng c2)"

text \<open>The derivative of a coordinate is 1 in itself and 0 in the other coordinate.\<close>

definition coordinate_derivatives :: "('e::comm_ring_1) algebra \<Rightarrow> symbol \<Rightarrow> symbol \<Rightarrow> bool" where
  "coordinate_derivatives eng c1 c2 \<longleftrightarrow>
     diff eng (as_expr eng c1) c1 = Inr 1 \<and> diff eng (as_expr eng c2) c2 = Inr 1 \<and>
     diff eng (as_expr eng c1) c2 = Inr 0 \<and> diff eng (as_expr eng c2) c1 = Inr 0"

text \<open>The engine integrates the expression \<open>c\<close> as a constant.\<close>

definition integrates_constant :: "('e::comm_ring_1) algebra \<Rightarrow> 'e \<Rightarrow> bool" where
  "integrates_constant eng c \<longleftrightarrow> (\<forall>v a b. integrate eng c (v, a, b) = Inr (c * (b - a)))"

text \<open>Division by \<open>u\<close> is exact: \<^verbatim>\<open>1/u\<close> is the inverse of \<open>u\<close>.\<close>

definition divides_exactly :: "('e::{comm_ring_1,inverse}) \<Rightarrow> bool" where
  "divides_exactly u \<longleftrightarrow> 1 / u * u = 1"

text \<open>
  The error of the first string, in argument order, that the parser rejects.
\<close>

fun first_error :: "(string \<Rightarrow> error + 'e) \<Rightarrow> string list \<Rightarrow> error option" where
  "first_error parse [] = None"
| "first_error parse (s # ss) =
     (case parse s of Inl e \<Rightarrow> Some e | Inr v \<Rightarrow> first_error parse ss)"

text \<open>
  Negation of a result: of the expression in exact mode, of the approximation in
  numerical mode. The second component of a numerical pair is an absolute error
  estimate and is kept.
\<close>

fun negated :: "('e::uminus) bracket_result \<Rightarrow> 'e bracket_result" where
  "negated (Exact e) = Exact (- e)"
| "negated (Numeric (v, err)) = Numeric (- v, err)"

text \<open>The callable that returns the negated value, and raises where the original raises.\<close>

definition neg_callable :: "(real \<Rightarrow> real \<Rightarrow> error + real) \<Rightarrow> real \<Rightarrow> real \<Rightarrow> error + real" where
  "neg_callable g = (\<lambda>x y. map_sum id uminus (g x y))"

text \<open>
  Integration, lambdification and double quadrature commute with negation. For
  quadrature the error estimate stays the same.
\<close>

definition integrate_odd :: "('e::comm_ring_1) algebra \<Rightarrow> bool" where
  "integrate_odd eng \<longleftrightarrow>
     (\<forall>e v a b. integrate eng (- e) (v, a, b) = map_sum id uminus (integrate eng e (v, a, b)))"

definition lambdify_odd :: "('e::comm_ring_1) algebra \<Rightarrow> bool" where
  "lambdify_odd eng \<longleftrightarrow>
     (\<forall>args e. lambdify eng args (- e) = map_sum id neg_callable (lambdify eng args e))"

definition dblquad_odd :: "dblquad_fn \<Rightarrow> bool" where
  "dblquad_odd dblquad \<longleftrightarrow>
     (\<forall>g a b gfun hfun. dblquad (neg_callable g) a b gfun hfun
        = map_sum id (\<lambda>(v, err). (- v, err)) (dblquad g a b gfun hfun))"

text \<open>
  The float conversion sends the symbolic bounds \<open>0\<close>, \<open>\<pi>\<close> and \<open>2\<pi>\<close> to the floats
  \<open>0\<close>, \<^verbatim>\<open>np.pi\<close> and \<^verbatim>\<open>2*np.pi\<close>.
\<close>

definition bounds_agree :: "('e::comm_ring_1) algebra \<Rightarrow> bool" where
  "bounds_agree eng \<longleftrightarrow>
     to_float eng 0 = Inr 0 \<and> to_float eng (pi_expr eng) = Inr pi \<and>
     to_float eng (2 * pi_expr eng) = Inr (2 * pi)"

text \<open>
  Two quadratures that return the same values and raise the same errors, but may differ
  in the error estimates they report.
\<close>

definition same_values :: "quad_fn \<Rightarrow> quad_fn \<Rightarrow> bool" where
  "same_values quad quad' \<longleftrightarrow>
     (\<forall>f a b. map_sum id fst (quad f a b) = map_sum id fst (quad' f a b))"

text \<open>A quadrature that reports the error estimate \<open>err\<close> whatever it computes.\<close>

definition with_estimate :: "real \<Rightarrow> quad_fn \<Rightarrow> quad_fn" where
  "with_estimate err quad f a b = map_sum id (\<lambda>(v, e). (v, err)) (quad f a b)"

text \<open>A quadrature whose value is exact whenever the integrand has an antiderivative.\<close>

definition exact_on_antiderivatives :: "quad_fn \<Rightarrow> bool" where
  "exact_on_antiderivatives quad \<longleftrightarrow>
     (\<forall>g G a b. antiderivative G g \<longrightarrow>
        map_sum id fst (quad (\<lambda>x. Inr (g x)) a b) = Inr (G b - G a))"

section \<open>Lemmas on the model and on the reference collaborators\<close>

subsection \<open>Raising and returning\<close>

lemma and_then_Inl [simp]: "and_then (Inl e) k = Inl e"
  by (simp add: and_then_def)

lemma and_then_Inr [simp]: "and_then (Inr v) k = k v"
  by (simp add: and_then_def)

lemma and_then_eq_Inr: "and_then r k = Inr y \<longleftrightarrow> (\<exists>v. r = Inr v \<and> k v = Inr y)"
  by (cases r) simp_all


subsection \<open>Expressions as functions\<close>

lemma denote_simps [simp]:
  "denote 0 env = 0" "denote 1 env = 1"
  "denote (a + b) env = denote a env + denote b env"
  "denote (a - b) env = denote a env - denote b env"
  "denote (- a) env = - denote a env"
  "denote (a * b) env = denote a env * denote b env"
  "denote (a / b) env = denote a env / denote b env"
  by (simp_all add: zero_sexpr_def one_sexpr_def plus_sexpr_def minus_sexpr_def
      uminus_sexpr_def times_sexpr_def divide_sexpr_def)

lemma denote_of_nat [simp]: "denote (of_nat n) env = of_nat n"
  by (induction n) simp_all

lemma denote_numeral [simp]: "denote (numeral k) env = numeral k"
  using denote_of_nat [of "numeral k" env] by simp

lemma denote_power [simp]: "denote (a ^ n) env = denote a env ^ n"
  by (induction n) simp_all

lemma sexpr_eqI: "(\<And>env. denote a env = denote b env) \<Longrightarrow> a = b"
  by (cases a, cases b) (simp add: fun_eq_iff)


subsection \<open>Newton integrals\<close>

text \<open>Two antiderivatives differ by a constant, so the integral is well defined.\<close>

lemma antiderivative_unique:
  assumes "antiderivative G g" and "antiderivative H g"
  shows "G b - G a = H b - H a"
proof -
  have "\<forall>x. ((\<lambda>x. G x - H x) has_real_derivative 0) (at x)"
  proof
    fix x
    have "((\<lambda>x. G x - H x) has_real_derivative g x - g x) (at x)"
      using assms unfolding antiderivative_def by (intro DERIV_diff) simp_all
    then show "((\<lambda>x. G x - H x) has_real_derivative 0) (at x)" by simp
  qed
  then have "G b - H b = G a - H a" by (rule DERIV_isconst_all)
  then show ?thesis by simp
qed

lemma newton_integral_eq:
  assumes "antiderivative G g"
  shows "newton_integral g a b = Some (G b - G a)"
proof -
  have "(THE r. \<exists>H. antiderivative H g \<and> r = H b - H a) = G b - G a"
  proof (rule the_equality)
    show "\<exists>H. antiderivative H g \<and> G b - G a = H b - H a" using assms by blast
  next
    fix r assume "\<exists>H. antiderivative H g \<and> r = H b - H a"
    then show "r = G b - G a" using antiderivative_unique [OF _ assms] by blast
  qed
  moreover have "\<exists>G. antiderivative G g" using assms by blast
  ultimately show ?thesis by (simp add: newton_integral_def)
qed

lemma antiderivative_const: "antiderivative (\<lambda>x. c * x) (\<lambda>x. c)"
  unfolding antiderivative_def by (auto intro!: derivative_eq_intros)

lemma antiderivative_sin: "antiderivative (\<lambda>x. - cos x) (\<lambda>x. sin x)"
  unfolding antiderivative_def by (auto intro!: derivative_eq_intros)

lemma antiderivative_sin_scaled: "antiderivative (\<lambda>x. - cos x * c) (\<lambda>x. sin x * c)"
  unfolding antiderivative_def by (auto intro!: derivative_eq_intros)

lemma antiderivative_cos_scaled: "antiderivative (\<lambda>x. c * sin x) (\<lambda>x. c * cos x)"
  unfolding antiderivative_def by (auto intro!: derivative_eq_intros)

lemma antiderivative_uminus:
  "antiderivative G g \<Longrightarrow> antiderivative (\<lambda>x. - G x) (\<lambda>x. - g x)"
  unfolding antiderivative_def by (auto intro!: derivative_eq_intros)

lemma newton_integral_const [simp]: "newton_integral (\<lambda>x. c) a b = Some (c * (b - a))"
  using newton_integral_eq [OF antiderivative_const, of c a b] by (simp add: algebra_simps)

lemma newton_integral_uminus:
  "newton_integral (\<lambda>x. - g x) a b = map_option uminus (newton_integral g a b)"
proof (cases "\<exists>G. antiderivative G g")
  case True
  then obtain G where G: "antiderivative G g" by blast
  show ?thesis
    using newton_integral_eq [OF G, of a b]
      newton_integral_eq [OF antiderivative_uminus [OF G], of a b] by simp
next
  case False
  have "\<not> (\<exists>H. antiderivative H (\<lambda>x. - g x))"
  proof
    assume "\<exists>H. antiderivative H (\<lambda>x. - g x)"
    then obtain H where "antiderivative H (\<lambda>x. - g x)" by blast
    from antiderivative_uminus [OF this] have "antiderivative (\<lambda>x. - H x) g" by simp
    with False show False by blast
  qed
  with False show ?thesis by (simp add: newton_integral_def)
qed


subsection \<open>The reference engine and quadrature\<close>

lemma number_facts:
  "is_number ''1''" "decimal ''1'' = 1"
  "\<not> is_number ''x1''" "\<not> is_number ''x2''" "\<not> is_number ''theta1''" "\<not> is_number ''theta2''"
  "\<not> is_number ''theta''" "\<not> is_number ''phi''" "\<not> is_number ''x1 +''"
  by code_simp+

lemma name_facts:
  "is_name ''x1''" "is_name ''x2''" "is_name ''theta1''" "is_name ''theta2''"
  "is_name ''theta''" "is_name ''phi''" "\<not> is_name ''x1 +''"
  by code_simp+

lemma sympify_one: "exact_sympify ''1'' = Inr 1"
  by (simp add: exact_sympify_def number_facts)

lemma sympify_name:
  "exact_sympify ''x1'' = Inr (SExpr (\<lambda>env. env ''x1''))"
  "exact_sympify ''x2'' = Inr (SExpr (\<lambda>env. env ''x2''))"
  "exact_sympify ''theta1'' = Inr (SExpr (\<lambda>env. env ''theta1''))"
  "exact_sympify ''theta2'' = Inr (SExpr (\<lambda>env. env ''theta2''))"
  "exact_sympify ''theta'' = Inr (SExpr (\<lambda>env. env ''theta''))"
  "exact_sympify ''phi'' = Inr (SExpr (\<lambda>env. env ''phi''))"
  by (simp_all only: exact_sympify_def number_facts name_facts if_True if_False)

lemma sympify_bad: "exact_sympify ''x1 +'' = Inl ExpressionParseError"
  by (simp only: exact_sympify_def number_facts name_facts if_True if_False)

lemma exact_diff_eq:
  assumes "\<And>env. ((\<lambda>x. f (env(v := x))) has_real_derivative d env) (at (env v))"
  shows "exact_diff (SExpr f) v = Inr (SExpr d)"
proof -
  let ?P = "\<lambda>d. \<forall>env. ((\<lambda>x. f (env(v := x))) has_real_derivative d env) (at (env v))"
  have "?P d" using assms by simp
  moreover have "d' = d" if "?P d'" for d'
  proof
    fix env show "d' env = d env" using that assms DERIV_unique by blast
  qed
  ultimately have "(THE d. ?P d) = d" by (intro the_equality)
  with \<open>?P d\<close> show ?thesis unfolding exact_diff_def by auto
qed

lemma exact_diff_eq':
  assumes "\<And>env. ((\<lambda>x. denote e (env(v := x))) has_real_derivative denote d env) (at (env v))"
  shows "exact_diff e v = Inr d"
  using exact_diff_eq [of "denote e" v "denote d"] assms by simp

lemma diff_symbol_same: "exact_diff (SExpr (\<lambda>env. env v)) v = Inr 1"
  by (rule exact_diff_eq') simp

lemma diff_symbol_other: "v \<noteq> w \<Longrightarrow> exact_diff (SExpr (\<lambda>env. env v)) w = Inr 0"
  by (rule exact_diff_eq') simp

lemma exact_integrate_eq:
  assumes "\<And>env. newton_integral (\<lambda>x. denote e (env(v := x))) (denote a env) (denote b env)
             = Some (denote r env)"
  shows "exact_integrate e (v, a, b) = Inr r"
  using assms by (cases r) (simp add: exact_integrate_def)

lemma integrate_constant:
  assumes "\<And>env. denote c env = k"
  shows "exact_integrate c (v, a, b) = Inr (c * (b - a))"
  by (rule exact_integrate_eq) (simp add: assms)

lemma newton_quad_eq:
  "antiderivative G g \<Longrightarrow> newton_quad (\<lambda>x. Inr (g x)) a b = Inr (G b - G a, 0)"
  by (simp add: newton_quad_def newton_integral_eq)

lemma newton_quad_const [simp]: "newton_quad (\<lambda>x. Inr c) a b = Inr (c * (b - a), 0)"
  using newton_quad_eq [OF antiderivative_const, of c a b] by (simp add: algebra_simps)


subsection \<open>The scenarios on the reference collaborators\<close>

lemma engine_simps [simp]:
  "sympify exact_engine = exact_sympify"
  "as_expr exact_engine = (\<lambda>v. SExpr (\<lambda>env. env v))"
  "diff exact_engine = exact_diff"
  "integrate exact_engine = exact_integrate"
  "sin_expr exact_engine = (\<lambda>e. SExpr (\<lambda>env. sin (denote e env)))"
  "pi_expr exact_engine = SExpr (\<lambda>env. pi)"
  "to_float exact_engine = exact_float"
  "lambdify exact_engine = exact_lambdify"
  by (simp_all add: exact_engine_def)

lemma integrate_one: "exact_integrate 1 (v, a, b) = Inr (b - a)"
  using integrate_constant [of 1 1 v a b] by simp

lemma R2_square_exact:
  "\<not> eq_True n \<Longrightarrow>
   PoissonWasserstein_R2 exact_engine dq ''1'' ''1'' ''x1'' ''x2'' n = Inr (Exact 1)"
  unfolding PoissonWasserstein_R2_def Let_def
  by (simp add: sympify_one sympify_name diff_symbol_same diff_symbol_other integrate_one)

lemma T2_torus_exact:
  "\<not> eq_True n \<Longrightarrow>
   PoissonWasserstein_T2 exact_engine dq ''1'' ''1'' ''theta1'' ''theta2'' n = Inr (Exact 1)"
  unfolding PoissonWasserstein_T2_def Let_def
  apply (simp add: sympify_one sympify_name diff_symbol_same diff_symbol_other integrate_one
      integrate_constant [of _ "2 * pi"])
  apply (rule sexpr_eqI)
  apply (simp add: power2_eq_square)
  done

lemma integrate_sin_theta:
  "exact_integrate (SExpr (\<lambda>env. sin (env ''theta''))) (''theta'', 0, SExpr (\<lambda>env. pi)) = Inr 2"
proof (rule exact_integrate_eq)
  fix env :: "symbol \<Rightarrow> real"
  show "newton_integral (\<lambda>x. denote (SExpr (\<lambda>env. sin (env ''theta''))) (env(''theta'' := x)))
          (denote 0 env) (denote (SExpr (\<lambda>env. pi)) env) = Some (denote 2 env)"
    using newton_integral_eq [OF antiderivative_sin, of 0 pi] by simp
qed

lemma S2_sphere_exact:
  "\<not> eq_True n \<Longrightarrow>
   PoissonWasserstein_S2 exact_engine dq ''1'' ''1'' ''theta'' ''phi'' n = Inr (Exact 1)"
  unfolding PoissonWasserstein_S2_def Let_def
  apply (simp add: sympify_one sympify_name diff_symbol_same diff_symbol_other
      times_sexpr_def [of 1] integrate_sin_theta integrate_constant [of _ 2])
  apply (rule sexpr_eqI)
  apply simp
  done


subsection \<open>The reference engine meets the hypotheses of the scenarios\<close>

lemma exact_parses_scenario:
  "parses_scenario exact_engine ''x1'' ''x2''"
  "parses_scenario exact_engine ''theta1'' ''theta2''"
  "parses_scenario exact_engine ''theta'' ''phi''"
  by (simp_all add: parses_scenario_def sympify_one sympify_name)

lemma exact_coordinate_derivatives:
  "c1 \<noteq> c2 \<Longrightarrow> coordinate_derivatives exact_engine c1 c2"
  by (simp add: coordinate_derivatives_def diff_symbol_same diff_symbol_other)

lemma exact_integrates_constant:
  "(\<And>env. denote c env = k) \<Longrightarrow> integrates_constant exact_engine c"
  by (simp add: integrates_constant_def integrate_constant)

lemma exact_divides_exactly:
  "(\<And>env. denote u env \<noteq> 0) \<Longrightarrow> divides_exactly u"
  unfolding divides_exactly_def by (rule sexpr_eqI) simp


subsection \<open>Results a run cannot have\<close>

lemma and_then_no_result:
  "(\<And>v. k v \<noteq> Inr y) \<Longrightarrow> and_then r k \<noteq> Inr y"
  by (cases r) simp_all


text \<open>The square scenario in numerical mode.\<close>

lemma R2_square_numeric:
  "eq_True n \<Longrightarrow>
   PoissonWasserstein_R2 exact_engine (dblquad_nested newton_quad) ''1'' ''1'' ''x1'' ''x2'' n
     = Inr (Numeric (1, 0))"
  unfolding PoissonWasserstein_R2_def Let_def
  by (simp add: sympify_one sympify_name diff_symbol_same diff_symbol_other
      exact_lambdify_def dblquad_nested_def)


subsection \<open>Antisymmetry of each evaluator\<close>

text \<open>
  Both branches carry a sign through: if the branch returns \<open>r\<close> on an integrand, it
  returns the negation of \<open>r\<close> on the negated integrand.
\<close>

lemma exact_branch_odd:
  assumes "integrate_odd eng"
    and "and_then (integrate eng I (v1, a1, b1)) (\<lambda>i.
         and_then (integrate eng i (v2, a2, b2)) (\<lambda>j. Inr (Exact (k * j)))) = Inr r"
  shows "and_then (integrate eng (- I) (v1, a1, b1)) (\<lambda>i.
         and_then (integrate eng i (v2, a2, b2)) (\<lambda>j. Inr (Exact (k * j)))) = Inr (negated r)"
proof -
  from assms(2) obtain i j where
    "integrate eng I (v1, a1, b1) = Inr i" "integrate eng i (v2, a2, b2) = Inr j"
    "r = Exact (k * j)"
    by (auto simp add: and_then_eq_Inr)
  with assms(1) show ?thesis by (simp add: integrate_odd_def)
qed

lemma numeric_branch_odd:
  assumes "lambdify_odd eng" and "dblquad_odd dblquad"
    and "and_then (lambdify eng args I) (\<lambda>g.
         and_then (dblquad g a b gfun hfun) (\<lambda>q. Inr (Numeric q))) = Inr r"
  shows "and_then (lambdify eng args (- I)) (\<lambda>g.
         and_then (dblquad g a b gfun hfun) (\<lambda>q. Inr (Numeric q))) = Inr (negated r)"
proof -
  from assms(3) obtain g v err where
    "lambdify eng args I = Inr g" "dblquad g a b gfun hfun = Inr (v, err)"
    "r = Numeric (v, err)"
    by (auto simp add: and_then_eq_Inr)
  with assms(1,2) show ?thesis by (simp add: lambdify_odd_def dblquad_odd_def)
qed


text \<open>Swapping the two functions negates the integrand.\<close>

lemma bracket_swap:
  fixes a b c d t p :: "'a::comm_ring_1"
  shows "(c * d - a * b) * t * p = - ((a * b - c * d) * t * p)"
    and "(c * d - a * b) * t * p * s = - ((a * b - c * d) * t * p * s)"
  by (simp_all add: algebra_simps)

lemma R2_antisymmetric:
  assumes odd: "integrate_odd eng" "lambdify_odd eng" "dblquad_odd dblquad"
    and run: "PoissonWasserstein_R2 eng dblquad tau rho f h numerical = Inr r"
  shows "PoissonWasserstein_R2 eng dblquad tau rho h f numerical = Inr (negated r)"
proof -
  from run obtain t p ff hh f1 h2 h1 f2 where
    steps: "sympify eng tau = Inr t" "sympify eng rho = Inr p"
      "sympify eng f = Inr ff" "sympify eng h = Inr hh"
      "diff eng ff ''x1'' = Inr f1" "diff eng hh ''x2'' = Inr h2"
      "diff eng hh ''x1'' = Inr h1" "diff eng ff ''x2'' = Inr f2"
    and tail: "(if eq_True numerical
        then and_then (lambdify eng [''x1'', ''x2''] ((f1 * h2 - h1 * f2) * t * p)) (\<lambda>g.
             and_then (dblquad g 0 1 (\<lambda>x2. 0) (\<lambda>x2. 1)) (\<lambda>q. Inr (Numeric q)))
        else and_then (integrate eng ((f1 * h2 - h1 * f2) * t * p) (''x1'', 0, 1)) (\<lambda>i.
             and_then (integrate eng i (''x2'', 0, 1)) (\<lambda>j. Inr (Exact j)))) = Inr r"
    unfolding PoissonWasserstein_R2_def Let_def and_then_eq_Inr by blast
  show ?thesis
  proof (cases "eq_True numerical")
    case True
    with tail numeric_branch_odd [OF odd(2,3)] steps show ?thesis
      unfolding PoissonWasserstein_R2_def Let_def
      by (simp add: bracket_swap(1) [of h1 f2 f1 h2])
  next
    case False
    with tail exact_branch_odd [OF odd(1), where k = 1] steps show ?thesis
      unfolding PoissonWasserstein_R2_def Let_def
      by (simp add: bracket_swap(1) [of h1 f2 f1 h2])
  qed
qed

lemma numeric_branch_float_odd:
  assumes "lambdify_odd eng" and "dblquad_odd dblquad"
    and "and_then (lambdify eng args I) (\<lambda>g.
         and_then B (\<lambda>b.
         and_then (dblquad g 0 b (\<lambda>y. 0) (\<lambda>y. b)) (\<lambda>q. Inr (Numeric q)))) = Inr r"
  shows "and_then (lambdify eng args (- I)) (\<lambda>g.
         and_then B (\<lambda>b.
         and_then (dblquad g 0 b (\<lambda>y. 0) (\<lambda>y. b)) (\<lambda>q. Inr (Numeric q)))) = Inr (negated r)"
proof -
  from assms(3) obtain g b v err where
    "lambdify eng args I = Inr g" "B = Inr b" "dblquad g 0 b (\<lambda>y. 0) (\<lambda>y. b) = Inr (v, err)"
    "r = Numeric (v, err)"
    by (auto simp add: and_then_eq_Inr)
  with assms(1,2) show ?thesis by (simp add: lambdify_odd_def dblquad_odd_def)
qed

lemma T2_antisymmetric:
  fixes eng :: "('e::{comm_ring_1,inverse}) algebra"
  assumes odd: "integrate_odd eng" "lambdify_odd eng" "dblquad_odd dblquad"
    and run: "PoissonWasserstein_T2 eng dblquad tau rho f h numerical = Inr r"
  shows "PoissonWasserstein_T2 eng dblquad tau rho h f numerical = Inr (negated r)"
proof -
  let ?k = "1 / (4 * pi_expr eng ^ 2)"
  let ?b = "2 * pi_expr eng"
  from run obtain t p ff hh f1 h2 h1 f2 where
    steps: "sympify eng tau = Inr t" "sympify eng rho = Inr p"
      "sympify eng f = Inr ff" "sympify eng h = Inr hh"
      "diff eng ff ''theta1'' = Inr f1" "diff eng hh ''theta2'' = Inr h2"
      "diff eng hh ''theta1'' = Inr h1" "diff eng ff ''theta2'' = Inr f2"
    and tail: "(if eq_True numerical
        then and_then (lambdify eng [''theta1'', ''theta2''] (?k * ((f1 * h2 - h1 * f2) * t * p)))
               (\<lambda>g.
             and_then (to_float eng ?b) (\<lambda>b.
             and_then (dblquad g 0 b (\<lambda>theta2. 0) (\<lambda>theta2. b)) (\<lambda>q. Inr (Numeric q))))
        else and_then (integrate eng ((f1 * h2 - h1 * f2) * t * p) (''theta1'', 0, ?b)) (\<lambda>i.
             and_then (integrate eng i (''theta2'', 0, ?b)) (\<lambda>j. Inr (Exact (?k * j)))))
        = Inr r"
    unfolding PoissonWasserstein_T2_def Let_def and_then_eq_Inr by blast
  show ?thesis
  proof (cases "eq_True numerical")
    case True
    with tail numeric_branch_float_odd [OF odd(2,3)] steps show ?thesis
      unfolding PoissonWasserstein_T2_def Let_def
      by (simp add: bracket_swap(1) [of h1 f2 f1 h2])
  next
    case False
    with tail exact_branch_odd [OF odd(1)] steps show ?thesis
      unfolding PoissonWasserstein_T2_def Let_def
      by (simp add: bracket_swap(1) [of h1 f2 f1 h2])
  qed
qed

lemma S2_antisymmetric:
  fixes eng :: "('e::{comm_ring_1,inverse}) algebra"
  assumes odd: "integrate_odd eng" "lambdify_odd eng" "dblquad_odd dblquad"
    and run: "PoissonWasserstein_S2 eng dblquad tau rho f h numerical = Inr r"
  shows "PoissonWasserstein_S2 eng dblquad tau rho h f numerical = Inr (negated r)"
proof -
  let ?k = "1 / (4 * pi_expr eng)"
  let ?s = "sin_expr eng (as_expr eng ''theta'')"
  from run obtain t p ff hh f1 h2 h1 f2 where
    steps: "sympify eng tau = Inr t" "sympify eng rho = Inr p"
      "sympify eng f = Inr ff" "sympify eng h = Inr hh"
      "diff eng ff ''theta'' = Inr f1" "diff eng hh ''phi'' = Inr h2"
      "diff eng hh ''theta'' = Inr h1" "diff eng ff ''phi'' = Inr f2"
    and tail: "(if eq_True numerical
        then and_then (lambdify eng [''theta'', ''phi''] (?k * ((f1 * h2 - h1 * f2) * t * p * ?s)))
               (\<lambda>g.
             and_then (dblquad g 0 (2 * pi) (\<lambda>phi. 0) (\<lambda>phi. pi)) (\<lambda>q. Inr (Numeric q)))
        else and_then (integrate eng ((f1 * h2 - h1 * f2) * t * p * ?s)
               (''theta'', 0, pi_expr eng)) (\<lambda>i.
             and_then (integrate eng i (''phi'', 0, 2 * pi_expr eng)) (\<lambda>j.
             Inr (Exact (?k * j))))) = Inr r"
    unfolding PoissonWasserstein_S2_def Let_def and_then_eq_Inr by blast
  show ?thesis
  proof (cases "eq_True numerical")
    case True
    with tail numeric_branch_odd [OF odd(2,3)] steps show ?thesis
      unfolding PoissonWasserstein_S2_def Let_def
      by (simp add: bracket_swap(2) [of h1 f2 f1 h2])
  next
    case False
    with tail exact_branch_odd [OF odd(1)] steps show ?thesis
      unfolding PoissonWasserstein_S2_def Let_def
      by (simp add: bracket_swap(2) [of h1 f2 f1 h2])
  qed
qed


subsection \<open>The reference collaborators commute with negation\<close>

lemma map_sum_id_Inl_iff [simp]: "map_sum id g r = Inl e \<longleftrightarrow> r = Inl e"
  by (cases r) simp_all

lemma exact_integrate_odd: "integrate_odd exact_engine"
proof -
  have "exact_integrate (- e) (v, a, b) = map_sum id uminus (exact_integrate e (v, a, b))"
    for e v a b
  proof -
    define X where
      "X = (\<lambda>env. newton_integral (\<lambda>x. denote e (env(v := x))) (denote a env) (denote b env))"
    have neg: "newton_integral (\<lambda>x. - denote e (env(v := x))) (denote a env) (denote b env)
                 = map_option uminus (X env)" for env
      by (simp add: X_def newton_integral_uminus)
    have l: "exact_integrate (- e) (v, a, b) =
               (if \<forall>env. X env \<noteq> None then Inr (SExpr (\<lambda>env. the (map_option uminus (X env))))
                else Inl IntegrationUnsupportedError)"
      by (simp add: exact_integrate_def neg)
    have r: "exact_integrate e (v, a, b) =
               (if \<forall>env. X env \<noteq> None then Inr (SExpr (\<lambda>env. the (X env)))
                else Inl IntegrationUnsupportedError)"
      by (simp add: exact_integrate_def X_def)
    show ?thesis
    proof (cases "\<forall>env. X env \<noteq> None")
      case True
      then have "(\<lambda>env. the (map_option uminus (X env))) = (\<lambda>env. - the (X env))"
        by (auto simp add: fun_eq_iff option.map_sel)
      moreover have "- SExpr f = SExpr (\<lambda>env. - f env)" for f
        by (simp add: uminus_sexpr_def)
      ultimately show ?thesis using True by (simp add: l r)
    next
      case False
      show ?thesis by (simp only: l r False if_False map_sum.simps id_apply)
    qed
  qed
  then show ?thesis by (simp add: integrate_odd_def)
qed

lemma exact_lambdify_odd: "lambdify_odd exact_engine"
  unfolding lambdify_odd_def
  by (auto simp add: exact_lambdify_def neg_callable_def fun_eq_iff split: list.splits)

lemma newton_quad_uminus:
  "newton_quad (\<lambda>x. map_sum id uminus (f x)) a b
     = map_sum id (\<lambda>(v, err). (- v, err)) (newton_quad f a b)"
proof (cases "\<exists>x e. f x = Inl e")
  case True
  then show ?thesis by (simp add: newton_quad_def)
next
  case False
  then have "\<And>x. \<exists>v. f x = Inr v" by (metis sum.exhaust)
  then have "(\<lambda>x. projr (map_sum id uminus (f x))) = (\<lambda>x. - projr (f x))"
    by (metis (no_types, lifting) map_sum.simps(2) sum.sel(2))
  with False show ?thesis
    by (simp add: newton_quad_def newton_integral_uminus split: option.splits)
qed

lemma newton_dblquad_odd: "dblquad_odd (dblquad_nested newton_quad)"
proof -
  have "map_sum id fst (map_sum id (\<lambda>(v, err). (- v, err)) r) = map_sum id uminus (map_sum id fst r)"
    for r :: "error + real \<times> real"
    by (cases r) (auto split: prod.splits)
  then show ?thesis
    by (simp add: dblquad_odd_def dblquad_nested_def neg_callable_def newton_quad_uminus)
qed


subsection \<open>The steps of a run on the sphere\<close>

text \<open>What a returned result says about the calls that produced it.\<close>

lemma S2_run:
  fixes eng :: "('e::{comm_ring_1,inverse}) algebra"
  assumes "PoissonWasserstein_S2 eng dblquad tau rho function1 function2 numerical = Inr res"
  shows "\<exists>t p ff hh f1 h2 h1 f2.
      sympify eng tau = Inr t \<and> sympify eng rho = Inr p \<and>
      sympify eng function1 = Inr ff \<and> sympify eng function2 = Inr hh \<and>
      diff eng ff ''theta'' = Inr f1 \<and> diff eng hh ''phi'' = Inr h2 \<and>
      diff eng hh ''theta'' = Inr h1 \<and> diff eng ff ''phi'' = Inr f2 \<and>
      (if eq_True numerical
       then \<exists>g q.
         lambdify eng [''theta'', ''phi'']
           (1 / (4 * pi_expr eng) *
             ((f1 * h2 - h1 * f2) * t * p * sin_expr eng (as_expr eng ''theta''))) = Inr g \<and>
         dblquad g 0 (2 * pi) (\<lambda>phi. 0) (\<lambda>phi. pi) = Inr q \<and> res = Numeric q
       else \<exists>i j.
         integrate eng ((f1 * h2 - h1 * f2) * t * p * sin_expr eng (as_expr eng ''theta''))
           (''theta'', 0, pi_expr eng) = Inr i \<and>
         integrate eng i (''phi'', 0, 2 * pi_expr eng) = Inr j \<and>
         res = Exact (1 / (4 * pi_expr eng) * j))"
  using assms
  unfolding PoissonWasserstein_S2_def Let_def and_then_eq_Inr
  by (cases "eq_True numerical") (simp_all only: if_True if_False and_then_eq_Inr, blast+)


text \<open>The sphere scenario in numerical mode.\<close>

lemma exact_bounds_agree: "bounds_agree exact_engine"
  by (simp add: bounds_agree_def exact_float_def)

lemma S2_sphere_numeric:
  "eq_True n \<Longrightarrow>
   PoissonWasserstein_S2 exact_engine (dblquad_nested newton_quad) ''1'' ''1'' ''theta'' ''phi'' n
     = Inr (Numeric (1, 0))"
proof -
  assume n: "eq_True n"
  have inner: "newton_quad (\<lambda>y. Inr (sin y / (4 * pi))) 0 pi = Inr (1 / (2 * pi), 0)"
    using newton_quad_eq [OF antiderivative_sin_scaled, of "1 / (4 * pi)" 0 pi]
    by (simp add: field_simps)
  show ?thesis
    unfolding PoissonWasserstein_S2_def Let_def
    using n
    by (simp add: sympify_one sympify_name diff_symbol_same diff_symbol_other
        exact_lambdify_def dblquad_nested_def inner)
qed


subsection \<open>The area integrator\<close>

lemma index_simps [simp]:
  "index (x # xs) 0 = Inr x" "index (x # y # xs) 1 = Inr y" "index (x # y # xs) (Suc 0) = Inr y"
  by (simp_all add: index_def)

lemma index_in_range:
  assumes "2 \<le> length xs"
  shows "index xs 0 = Inr (xs ! 0)" and "index xs 1 = Inr (xs ! 1)"
    and "index xs (Suc 0) = Inr (xs ! 1)"
  using assms by (auto simp add: index_def)


text \<open>
  The built-in field, level by level, under a quadrature that is exact on integrands
  with an antiderivative: \<open>2 cos(phi)\<close> after \<open>theta\<close>, then 0 after \<open>phi\<close>, and 0 from
  there on.
\<close>

lemma quad_exact_value:
  assumes "exact_on_antiderivatives quad" and "antiderivative G g"
  shows "map_sum id fst (quad (\<lambda>x. Inr (g x)) a b) = Inr (G b - G a)"
  using assms by (simp add: exact_on_antiderivatives_def)

lemma builtin_integral_theta:
  assumes "exact_on_antiderivatives quad"
  shows "integral_theta quad (\<lambda>theta phi s t. sin theta * cos phi) phi s t = Inr (2 * cos phi)"
  unfolding integral_theta_def
  using quad_exact_value [OF assms antiderivative_sin_scaled [of "cos phi"], of 0 pi]
  by simp

lemma builtin_integral_phi:
  assumes "exact_on_antiderivatives quad"
  shows "integral_phi quad (\<lambda>theta phi s t. sin theta * cos phi) s t = Inr 0"
  unfolding integral_phi_def builtin_integral_theta [OF assms]
  using quad_exact_value [OF assms antiderivative_cos_scaled [of 2], of 0 "2 * pi"]
  by simp

lemma builtin_integral_s:
  assumes "exact_on_antiderivatives quad" and "2 \<le> length I_1"
  shows "integral_s quad (\<lambda>theta phi s t. sin theta * cos phi) I_1 t = Inr 0"
  unfolding integral_s_def builtin_integral_phi [OF assms(1)]
  using quad_exact_value [OF assms(1) antiderivative_const [of 0], of "I_1 ! 0" "I_1 ! 1"] assms(2)
  by (simp add: index_in_range)

lemma builtin_area_value:
  assumes "exact_on_antiderivatives quad" and "2 \<le> length I_1" and "2 \<le> length I_2"
  shows "map_sum id fst (area_Omega_S2 quad Omega I_1 I_2) = Inr 0"
  unfolding area_Omega_S2_def quadruple_integral_def Let_def
    builtin_integral_s [OF assms(1,2)]
  using quad_exact_value [OF assms(1) antiderivative_const [of 0], of "I_2 ! 0" "I_2 ! 1"] assms(3)
  by (simp add: index_in_range)

lemma newton_quad_exact: "exact_on_antiderivatives newton_quad"
  by (simp add: exact_on_antiderivatives_def newton_quad_eq)

lemma newton_area: "area_Omega_S2 newton_quad Omega [0, pi] [0, 2 * pi] = Inr (0, 0)"
proof -
  have "map_sum id fst (area_Omega_S2 newton_quad Omega [0, pi] [0, 2 * pi]) = Inr 0"
    by (rule builtin_area_value [OF newton_quad_exact]) simp_all
  moreover have "newton_quad f a b = Inr r \<Longrightarrow> snd r = 0" for f a b r
    by (auto simp add: newton_quad_def split: if_splits option.splits)
  ultimately show ?thesis
    by (cases "area_Omega_S2 newton_quad Omega [0, pi] [0, 2 * pi]")
      (auto simp add: area_Omega_S2_def quadruple_integral_def)
qed


text \<open>
  Had a constant field 1 reached the nested quadratures, the value over
  \<^verbatim>\<open>I_1 = [0, pi]\<close> and \<^verbatim>\<open>I_2 = [0, 2*pi]\<close> would have been \<open>\<pi>\<^sup>3\<close>.
\<close>

lemma constant_field_nested:
  "quadruple_integral newton_quad (\<lambda>theta phi s t. 1) [0, pi] [0, 2 * pi] = Inr (pi ^ 3, 0)"
  by (simp add: quadruple_integral_def integral_s_def integral_phi_def integral_theta_def
      power3_eq_cube)

section \<open>The claims\<close>

subsection \<open>Antisymmetry\<close>

text \<open>
  Claim C1. For each of the three evaluators, swapping \<^verbatim>\<open>function1\<close> and \<^verbatim>\<open>function2\<close>
  negates the result, in exact and in numerical mode: whenever the call on \<open>(f, h)\<close>
  returns \<open>r\<close>, the call on \<open>(h, f)\<close> returns the negation of \<open>r\<close>. The bracket term of the
  code is antisymmetric by ring algebra alone; the rest of the pipeline carries the sign
  through when the collaborators commute with negation. In numerical mode the
  approximation is negated and the absolute error estimate is the same.
\<close>

theorem bracket_antisymmetry:
  fixes eng :: "('e::{comm_ring_1,inverse}) algebra"
  assumes "integrate_odd eng" and "lambdify_odd eng" and "dblquad_odd dblquad"
  shows "(PoissonWasserstein_R2 eng dblquad tau rho f h numerical = Inr r1 \<longrightarrow>
          PoissonWasserstein_R2 eng dblquad tau rho h f numerical = Inr (negated r1)) \<and>
         (PoissonWasserstein_T2 eng dblquad tau rho f h numerical = Inr r2 \<longrightarrow>
          PoissonWasserstein_T2 eng dblquad tau rho h f numerical = Inr (negated r2)) \<and>
         (PoissonWasserstein_S2 eng dblquad tau rho f h numerical = Inr r3 \<longrightarrow>
          PoissonWasserstein_S2 eng dblquad tau rho h f numerical = Inr (negated r3))"
  using R2_antisymmetric [OF assms] T2_antisymmetric [OF assms] S2_antisymmetric [OF assms]
  by blast

text \<open>
  The reference collaborators commute with negation. On them the three scenarios, which
  return 1, return \<open>-1\<close> with the functions swapped, and the square scenario returns the
  pair \<open>(-1, 0)\<close> in numerical mode.
\<close>

theorem bracket_antisymmetry_witness:
  "PoissonWasserstein_R2 exact_engine (dblquad_nested newton_quad) ''1'' ''1'' ''x2'' ''x1''
     (PyBool False) = Inr (Exact (- 1)) \<and>
   PoissonWasserstein_T2 exact_engine (dblquad_nested newton_quad) ''1'' ''1'' ''theta2''
     ''theta1'' (PyBool False) = Inr (Exact (- 1)) \<and>
   PoissonWasserstein_S2 exact_engine (dblquad_nested newton_quad) ''1'' ''1'' ''phi'' ''theta''
     (PyBool False) = Inr (Exact (- 1)) \<and>
   PoissonWasserstein_R2 exact_engine (dblquad_nested newton_quad) ''1'' ''1'' ''x2'' ''x1''
     (PyBool True) = Inr (Numeric (- 1, 0))"
proof -
  note anti = bracket_antisymmetry [OF exact_integrate_odd exact_lambdify_odd newton_dblquad_odd,
      where tau = "''1''" and rho = "''1''"]
  show ?thesis
    using anti [where f = "''x1''" and h = "''x2''" and numerical = "PyBool False"
        and ?r1.0 = "Exact 1"]
      anti [where f = "''theta1''" and h = "''theta2''" and numerical = "PyBool False"
        and ?r2.0 = "Exact 1"]
      anti [where f = "''theta''" and h = "''phi''" and numerical = "PyBool False"
        and ?r3.0 = "Exact 1"]
      anti [where f = "''x1''" and h = "''x2''" and numerical = "PyBool True"
        and ?r1.0 = "Numeric (1, 0)"]
      R2_square_exact [of "PyBool False" "dblquad_nested newton_quad"]
      T2_torus_exact [of "PyBool False" "dblquad_nested newton_quad"]
      S2_sphere_exact [of "PyBool False" "dblquad_nested newton_quad"]
      R2_square_numeric [of "PyBool True"]
    by simp
qed

subsection \<open>The scenarios of the specification\<close>

text \<open>
  Claim C2. Called with \<^verbatim>\<open>tau="1"\<close>, \<^verbatim>\<open>rho="1"\<close>, \<^verbatim>\<open>function1="x1"\<close>, \<^verbatim>\<open>function2="x2"\<close> and
  the default \<^verbatim>\<open>numerical=False\<close>, the evaluator of the square returns the symbolic
  value 1. This holds for every engine that parses the three atoms, differentiates a
  coordinate to 1 or 0, and integrates the constant 1 over an interval to its length.
\<close>

theorem R2_square_scenario:
  assumes "parses_scenario eng ''x1'' ''x2''"
    and "coordinate_derivatives eng ''x1'' ''x2''"
    and "integrates_constant eng 1"
  shows "PoissonWasserstein_R2 eng dblquad ''1'' ''1'' ''x1'' ''x2'' (PyBool False) = Inr (Exact 1)"
  using assms
  unfolding PoissonWasserstein_R2_def Let_def parses_scenario_def coordinate_derivatives_def
    integrates_constant_def
  by simp

text \<open>The reference engine meets the three hypotheses, and the code returns 1 on it.\<close>

theorem R2_square_scenario_witness:
  "PoissonWasserstein_R2 exact_engine (dblquad_nested newton_quad) ''1'' ''1'' ''x1'' ''x2''
     (PyBool False) = Inr (Exact 1)"
  by (rule R2_square_scenario [OF exact_parses_scenario(1) exact_coordinate_derivatives
        exact_integrates_constant [of 1 1]]) simp_all

text \<open>
  Claim C3. On the torus, with \<^verbatim>\<open>function1="theta1"\<close> and \<^verbatim>\<open>function2="theta2"\<close>, the
  integrand is 1, the first integration gives \<open>2\<pi>\<close>, the second \<open>(2\<pi>)\<^sup>2\<close>, and the
  built-in factor \<open>1/(4\<pi>\<^sup>2)\<close> cancels it: the exact result is 1. Besides the hypotheses
  of C2 the engine integrates the constant \<open>2\<pi>\<close> and divides by \<open>4\<pi>\<^sup>2\<close> exactly.
\<close>

theorem T2_torus_scenario:
  fixes eng :: "('e::{comm_ring_1,inverse}) algebra"
  assumes "parses_scenario eng ''theta1'' ''theta2''"
    and "coordinate_derivatives eng ''theta1'' ''theta2''"
    and "integrates_constant eng 1"
    and "integrates_constant eng (2 * pi_expr eng)"
    and "divides_exactly (4 * pi_expr eng ^ 2)"
  shows "integrate eng 1 (''theta1'', 0, 2 * pi_expr eng) = Inr (2 * pi_expr eng) \<and>
         integrate eng (2 * pi_expr eng) (''theta2'', 0, 2 * pi_expr eng)
           = Inr ((2 * pi_expr eng) ^ 2) \<and>
         1 / (4 * pi_expr eng ^ 2) * (2 * pi_expr eng) ^ 2 = 1 \<and>
         PoissonWasserstein_T2 eng dblquad ''1'' ''1'' ''theta1'' ''theta2'' (PyBool False)
           = Inr (Exact 1)"
proof -
  let ?p = "pi_expr eng"
  have i1: "integrate eng 1 (''theta1'', 0, 2 * ?p) = Inr (2 * ?p)"
    using assms(3) by (simp add: integrates_constant_def)
  have i2: "integrate eng (2 * ?p) (''theta2'', 0, 2 * ?p) = Inr ((2 * ?p) ^ 2)"
    using assms(4) by (simp add: integrates_constant_def power2_eq_square)
  have "(2 * ?p) ^ 2 = 4 * ?p ^ 2" by (simp add: power2_eq_square)
  then have n: "1 / (4 * ?p ^ 2) * (2 * ?p) ^ 2 = 1"
    using assms(5) by (simp add: divides_exactly_def)
  have "PoissonWasserstein_T2 eng dblquad ''1'' ''1'' ''theta1'' ''theta2'' (PyBool False)
          = Inr (Exact (1 / (4 * ?p ^ 2) * (2 * ?p) ^ 2))"
    using assms(1,2) i1 i2
    unfolding PoissonWasserstein_T2_def Let_def parses_scenario_def coordinate_derivatives_def
    by simp
  with i1 i2 n show ?thesis by simp
qed

text \<open>The reference engine meets the hypotheses.\<close>

theorem T2_torus_scenario_witness:
  "PoissonWasserstein_T2 exact_engine (dblquad_nested newton_quad) ''1'' ''1'' ''theta1''
     ''theta2'' (PyBool False) = Inr (Exact 1)"
proof -
  have "integrates_constant exact_engine (2 * pi_expr exact_engine)"
    by (rule exact_integrates_constant [of _ "2 * pi"]) simp
  moreover have "divides_exactly (4 * pi_expr exact_engine ^ 2)"
    by (rule exact_divides_exactly) simp
  ultimately show ?thesis
    using T2_torus_scenario [of exact_engine "dblquad_nested newton_quad",
        OF exact_parses_scenario(2) exact_coordinate_derivatives
           exact_integrates_constant [of 1 1]]
    by simp
qed

subsection \<open>The sphere: measure factor, normalisation and domain\<close>

text \<open>
  Claim C4. Every run of the sphere evaluator that returns a result went through these
  steps. The four strings parsed, the four derivatives were taken, and the integrand is
  the bracket times \<^verbatim>\<open>rho\<close> times \<open>sin(theta)\<close>. In the exact branch this integrand, with
  the factor \<open>sin(theta)\<close> already in it, is integrated over \<open>theta\<close> from 0 to \<open>\<pi>\<close>, the
  outcome over \<open>phi\<close> from 0 to \<open>2\<pi>\<close>, and only then multiplied by \<open>1/(4\<pi>)\<close>. In the
  numerical branch the same integrand, times \<open>1/(4\<pi>)\<close>, is lambdified and handed to the
  double quadrature.
\<close>

theorem S2_measure_factor_and_normalisation:
  fixes eng :: "('e::{comm_ring_1,inverse}) algebra"
  assumes "PoissonWasserstein_S2 eng dblquad tau rho function1 function2 numerical = Inr res"
  shows "\<exists>t p ff hh f1 h2 h1 f2.
      sympify eng tau = Inr t \<and> sympify eng rho = Inr p \<and>
      sympify eng function1 = Inr ff \<and> sympify eng function2 = Inr hh \<and>
      diff eng ff ''theta'' = Inr f1 \<and> diff eng hh ''phi'' = Inr h2 \<and>
      diff eng hh ''theta'' = Inr h1 \<and> diff eng ff ''phi'' = Inr f2 \<and>
      (if eq_True numerical
       then \<exists>g q.
         lambdify eng [''theta'', ''phi'']
           (1 / (4 * pi_expr eng) *
             ((f1 * h2 - h1 * f2) * t * p * sin_expr eng (as_expr eng ''theta''))) = Inr g \<and>
         dblquad g 0 (2 * pi) (\<lambda>phi. 0) (\<lambda>phi. pi) = Inr q \<and> res = Numeric q
       else \<exists>i j.
         integrate eng ((f1 * h2 - h1 * f2) * t * p * sin_expr eng (as_expr eng ''theta''))
           (''theta'', 0, pi_expr eng) = Inr i \<and>
         integrate eng i (''phi'', 0, 2 * pi_expr eng) = Inr j \<and>
         res = Exact (1 / (4 * pi_expr eng) * j))"
  by (rule S2_run [OF assms])

text \<open>
  The scenario \<^verbatim>\<open>tau="1"\<close>, \<^verbatim>\<open>rho="1"\<close>, \<^verbatim>\<open>f="theta"\<close>, \<^verbatim>\<open>h="phi"\<close> on the reference
  engine, where the result is 1.
\<close>

theorem S2_measure_factor_and_normalisation_witness:
  "\<exists>t p ff hh f1 h2 h1 f2.
      sympify exact_engine ''1'' = Inr t \<and> sympify exact_engine ''1'' = Inr p \<and>
      sympify exact_engine ''theta'' = Inr ff \<and> sympify exact_engine ''phi'' = Inr hh \<and>
      diff exact_engine ff ''theta'' = Inr f1 \<and> diff exact_engine hh ''phi'' = Inr h2 \<and>
      diff exact_engine hh ''theta'' = Inr h1 \<and> diff exact_engine ff ''phi'' = Inr f2 \<and>
      (\<exists>i j.
         integrate exact_engine
           ((f1 * h2 - h1 * f2) * t * p * sin_expr exact_engine (as_expr exact_engine ''theta''))
           (''theta'', 0, pi_expr exact_engine) = Inr i \<and>
         integrate exact_engine i (''phi'', 0, 2 * pi_expr exact_engine) = Inr j \<and>
         Exact 1 = Exact (1 / (4 * pi_expr exact_engine) * j))"
  using S2_measure_factor_and_normalisation
    [OF S2_sphere_exact [of "PyBool False" "dblquad_nested newton_quad"]]
  by (simp only: eq_True.simps if_False simp_thms)

text \<open>
  Claim C5. The two branches of the sphere evaluator integrate over the same domain in
  the same order. The exact branch integrates over \<open>theta\<close> from 0 to \<open>\<pi>\<close> first and over
  \<open>phi\<close> from 0 to \<open>2\<pi>\<close> second. The numerical branch, for a double quadrature that nests
  a one-dimensional one as SciPy documents, integrates the callable over its first
  argument \<open>theta\<close> innermost and over its second argument \<open>phi\<close> outermost, between the
  float values of exactly those symbolic bounds.
\<close>

theorem S2_same_domain:
  fixes eng :: "('e::{comm_ring_1,inverse}) algebra"
  assumes "bounds_agree eng"
  shows "(\<not> eq_True numerical \<and>
          PoissonWasserstein_S2 eng dblquad tau rho function1 function2 numerical = Inr res \<longrightarrow>
          (\<exists>integrand i j.
             integrate eng integrand (''theta'', 0, pi_expr eng) = Inr i \<and>
             integrate eng i (''phi'', 0, 2 * pi_expr eng) = Inr j \<and>
             res = Exact (1 / (4 * pi_expr eng) * j))) \<and>
         (eq_True numerical \<and>
          PoissonWasserstein_S2 eng (dblquad_nested quad) tau rho function1 function2 numerical
            = Inr res \<longrightarrow>
          (\<exists>integrand g q theta_lo theta_hi phi_lo phi_hi.
             to_float eng 0 = Inr theta_lo \<and> to_float eng (pi_expr eng) = Inr theta_hi \<and>
             to_float eng 0 = Inr phi_lo \<and> to_float eng (2 * pi_expr eng) = Inr phi_hi \<and>
             lambdify eng [''theta'', ''phi''] integrand = Inr g \<and>
             quad (\<lambda>phi. map_sum id fst (quad (\<lambda>theta. g theta phi) theta_lo theta_hi))
               phi_lo phi_hi = Inr q \<and>
             res = Numeric q))"
proof (intro conjI impI)
  assume "\<not> eq_True numerical \<and>
    PoissonWasserstein_S2 eng dblquad tau rho function1 function2 numerical = Inr res"
  with S2_run [of eng dblquad tau rho function1 function2 numerical res]
  show "\<exists>integrand i j.
      integrate eng integrand (''theta'', 0, pi_expr eng) = Inr i \<and>
      integrate eng i (''phi'', 0, 2 * pi_expr eng) = Inr j \<and>
      res = Exact (1 / (4 * pi_expr eng) * j)"
    by (simp only: if_False) blast
next
  assume "eq_True numerical \<and>
    PoissonWasserstein_S2 eng (dblquad_nested quad) tau rho function1 function2 numerical
      = Inr res"
  with S2_run [of eng "dblquad_nested quad" tau rho function1 function2 numerical res]
  obtain integrand g q where
    "lambdify eng [''theta'', ''phi''] integrand = Inr g"
    "dblquad_nested quad g 0 (2 * pi) (\<lambda>phi. 0) (\<lambda>phi. pi) = Inr q" "res = Numeric q"
    by (simp only: if_True) blast
  with assms show "\<exists>integrand g q theta_lo theta_hi phi_lo phi_hi.
      to_float eng 0 = Inr theta_lo \<and> to_float eng (pi_expr eng) = Inr theta_hi \<and>
      to_float eng 0 = Inr phi_lo \<and> to_float eng (2 * pi_expr eng) = Inr phi_hi \<and>
      lambdify eng [''theta'', ''phi''] integrand = Inr g \<and>
      quad (\<lambda>phi. map_sum id fst (quad (\<lambda>theta. g theta phi) theta_lo theta_hi))
        phi_lo phi_hi = Inr q \<and>
      res = Numeric q"
    unfolding bounds_agree_def dblquad_nested_def by blast
qed

text \<open>Both branches on the reference collaborators, on the scenario of C4.\<close>

theorem S2_same_domain_witness:
  "(\<exists>integrand i j.
      integrate exact_engine integrand (''theta'', 0, pi_expr exact_engine) = Inr i \<and>
      integrate exact_engine i (''phi'', 0, 2 * pi_expr exact_engine) = Inr j \<and>
      Exact 1 = Exact (1 / (4 * pi_expr exact_engine) * j)) \<and>
   (\<exists>integrand g q theta_lo theta_hi phi_lo phi_hi.
      to_float exact_engine 0 = Inr theta_lo \<and>
      to_float exact_engine (pi_expr exact_engine) = Inr theta_hi \<and>
      to_float exact_engine 0 = Inr phi_lo \<and>
      to_float exact_engine (2 * pi_expr exact_engine) = Inr phi_hi \<and>
      lambdify exact_engine [''theta'', ''phi''] integrand = Inr g \<and>
      newton_quad (\<lambda>phi. map_sum id fst (newton_quad (\<lambda>theta. g theta phi) theta_lo theta_hi))
        phi_lo phi_hi = Inr q \<and>
      Numeric (1, 0) = (Numeric q :: sexpr bracket_result))"
  using S2_same_domain [OF exact_bounds_agree, of "PyBool False" "dblquad_nested newton_quad"
      "''1''" "''1''" "''theta''" "''phi''" "Exact 1"]
    S2_same_domain [OF exact_bounds_agree, of "PyBool True" _ "''1''" "''1''" "''theta''"
      "''phi''" "Numeric (1, 0)" newton_quad]
    S2_sphere_exact [of "PyBool False" "dblquad_nested newton_quad"]
    S2_sphere_numeric [of "PyBool True"]
  by (simp only: eq_True.simps simp_thms)

subsection \<open>The area integrator\<close>

text \<open>
  Claim C6. \<^verbatim>\<open>area_Omega_S2\<close> is four nested quadratures: over \<open>theta\<close> from 0 to \<open>\<pi>\<close>
  innermost, then over \<open>phi\<close> from 0 to \<open>2\<pi>\<close>, then over \<open>s\<close> between the two entries of
  \<^verbatim>\<open>I_1\<close>, then over \<open>t\<close> between the two entries of \<^verbatim>\<open>I_2\<close> outermost, with the factor
  \<open>1/(4\<pi>)\<close> in the outermost integrand. It returns the pair of the outermost quadrature.
  The three inner quadratures contribute their values only: replacing them by a
  quadrature that reports other error estimates changes nothing.
\<close>

theorem area_nested_quadratures:
  assumes "same_values quad quad'" and "2 \<le> length I_1" and "2 \<le> length I_2"
  shows "area_Omega_S2 quad Omega I_1 I_2 =
     quad (\<lambda>t. map_sum id (\<lambda>v. 1 / (4 * pi) * v)
       (map_sum id fst (quad' (\<lambda>s.
          map_sum id fst (quad' (\<lambda>phi.
            map_sum id fst (quad' (\<lambda>theta. Inr (sin theta * cos phi)) 0 pi))
          0 (2 * pi)))
       (I_1 ! 0) (I_1 ! 1))))
     (I_2 ! 0) (I_2 ! 1)"
proof -
  have v: "map_sum id fst (quad f a b) = map_sum id fst (quad' f a b)" for f a b
    using assms(1) by (simp add: same_values_def)
  show ?thesis
    using assms(2,3)
    by (simp add: area_Omega_S2_def quadruple_integral_def integral_s_def integral_phi_def
        integral_theta_def index_in_range v)
qed

text \<open>
  On the reference quadrature, with inner quadratures that report the error estimate 1.
\<close>

theorem area_nested_quadratures_witness:
  "area_Omega_S2 newton_quad (\<lambda>theta phi s t. 1 :: real) [0, pi] [0, 2 * pi] =
     newton_quad (\<lambda>t. map_sum id (\<lambda>v. 1 / (4 * pi) * v)
       (map_sum id fst (with_estimate 1 newton_quad (\<lambda>s.
          map_sum id fst (with_estimate 1 newton_quad (\<lambda>phi.
            map_sum id fst (with_estimate 1 newton_quad (\<lambda>theta. Inr (sin theta * cos phi)) 0 pi))
          0 (2 * pi)))
       0 pi)))
     0 (2 * pi)"
proof -
  have "same_values newton_quad (with_estimate 1 newton_quad)"
    unfolding same_values_def with_estimate_def
    by (auto simp add: sum.map_comp fun_eq_iff split: prod.splits intro!: sum.map_cong0)
  from area_nested_quadratures [OF this, of "[0, pi]" "[0, 2 * pi]"]
  show ?thesis by simp
qed

text \<open>
  Claim C7, amended. The claim reads: for a constant field 1, the area over
  \<^verbatim>\<open>I_1 = [0, pi]\<close> and \<^verbatim>\<open>I_2 = [0, 2*pi]\<close> is 1. The code integrates its built-in field
  \<open>sin(theta) cos(phi)\<close> whatever field it is given, and the integral of \<open>cos(phi)\<close> over a
  full period vanishes: with a quadrature that is exact on integrands with an
  antiderivative, the value returned is 0.
\<close>

theorem builtin_field_area:
  assumes "exact_on_antiderivatives quad"
  shows "map_sum id fst (area_Omega_S2 quad Omega [0, pi] [0, 2 * pi]) = Inr 0"
  by (rule builtin_area_value [OF assms]) simp_all

theorem builtin_field_area_witness:
  "map_sum id fst (area_Omega_S2 newton_quad (\<lambda>theta phi s t. 1 :: real) [0, pi] [0, 2 * pi])
     = Inr 0"
  by (rule builtin_field_area [OF newton_quad_exact])

text \<open>
  The claim as stated fails on the reference quadrature: given the constant field 1 the
  code returns the pair \<open>(0, 0)\<close>, whose value is not 1.
\<close>

theorem constant_field_area_counterexample:
  "area_Omega_S2 newton_quad (\<lambda>theta phi s t. 1 :: real) [0, pi] [0, 2 * pi] = Inr (0, 0) \<and>
   map_sum id fst (area_Omega_S2 newton_quad (\<lambda>theta phi s t. 1 :: real) [0, pi] [0, 2 * pi])
     \<noteq> Inr 1"
  by (simp add: newton_area)

text \<open>
  Claim C8. The result of \<^verbatim>\<open>area_Omega_S2\<close> does not depend on its first argument:
  the local definition of \<^verbatim>\<open>Omega\<close> shadows it. The two arguments may even differ
  in type.
\<close>

theorem area_ignores_Omega:
  "area_Omega_S2 quad g1 I_1 I_2 = area_Omega_S2 quad g2 I_1 I_2"
  by (simp add: area_Omega_S2_def)

subsection \<open>Parse errors and the mode flag\<close>

text \<open>
  Claim C9. When one of the four strings fails to parse, each bracket evaluator returns
  the error of the first such string, in the order tau, rho, function1, function2, and
  nothing else: the result is the same for any other engine with the same parser,
  whatever its differentiation, integration and lambdification do, for any quadrature
  and in either mode. So no later call contributes, and no mode falls back on the other.
\<close>

theorem parse_error_propagates:
  fixes eng eng' :: "('e::{comm_ring_1,inverse}) algebra"
  assumes "first_error (sympify eng) [tau, rho, function1, function2] = Some err"
    and "sympify eng' = sympify eng"
  shows "PoissonWasserstein_R2 eng dblquad tau rho function1 function2 numerical = Inl err \<and>
         PoissonWasserstein_R2 eng' dblquad' tau rho function1 function2 numerical' = Inl err \<and>
         PoissonWasserstein_T2 eng dblquad tau rho function1 function2 numerical = Inl err \<and>
         PoissonWasserstein_T2 eng' dblquad' tau rho function1 function2 numerical' = Inl err \<and>
         PoissonWasserstein_S2 eng dblquad tau rho function1 function2 numerical = Inl err \<and>
         PoissonWasserstein_S2 eng' dblquad' tau rho function1 function2 numerical' = Inl err"
  using assms
  unfolding PoissonWasserstein_R2_def PoissonWasserstein_T2_def PoissonWasserstein_S2_def Let_def
  by (auto split: sum.splits)

text \<open>
  A malformed \<^verbatim>\<open>rho\<close> on the reference engine, and on an engine and a quadrature that
  would accept anything.
\<close>

theorem parse_error_propagates_witness:
  "PoissonWasserstein_R2 exact_engine (dblquad_nested newton_quad) ''1'' ''x1 +'' ''x1'' ''x2''
      (PyBool False) = Inl ExpressionParseError \<and>
   PoissonWasserstein_S2 (exact_engine\<lparr>integrate := \<lambda>e r. Inr 1\<rparr>) (\<lambda>f a b g h. Inr (1, 0))
      ''1'' ''x1 +'' ''x1'' ''x2'' (PyBool True) = Inl ExpressionParseError"
proof -
  have "first_error (sympify exact_engine) [''1'', ''x1 +'', ''x1'', ''x2'']
          = Some ExpressionParseError"
    by (simp add: sympify_one sympify_bad)
  moreover have "sympify (exact_engine\<lparr>integrate := \<lambda>e r. Inr 1\<rparr>) = sympify exact_engine"
    by simp
  ultimately show ?thesis
    using parse_error_propagates [of exact_engine "''1''" "''x1 +''" "''x1''" "''x2''"
        ExpressionParseError "exact_engine\<lparr>integrate := \<lambda>e r. Inr 1\<rparr>"
        "dblquad_nested newton_quad" "PyBool False" "\<lambda>f a b g h. Inr (1, 0)" "PyBool True"]
    by blast
qed

text \<open>
  Claim C10. The numerical branch runs exactly when \<^verbatim>\<open>numerical == True\<close> holds. A flag
  that compares equal to \<^verbatim>\<open>True\<close> behaves as \<^verbatim>\<open>True\<close> and never yields a symbolic
  result; any other flag behaves as \<^verbatim>\<open>False\<close> and never yields a numerical pair. A
  non-empty string is truthy and still selects the exact branch.
\<close>

theorem numerical_flag:
  fixes eng :: "('e::{comm_ring_1,inverse}) algebra"
  shows "(eq_True numerical \<longrightarrow>
            PoissonWasserstein_R2 eng dblquad tau rho f h numerical
              = PoissonWasserstein_R2 eng dblquad tau rho f h (PyBool True) \<and>
            PoissonWasserstein_T2 eng dblquad tau rho f h numerical
              = PoissonWasserstein_T2 eng dblquad tau rho f h (PyBool True) \<and>
            PoissonWasserstein_S2 eng dblquad tau rho f h numerical
              = PoissonWasserstein_S2 eng dblquad tau rho f h (PyBool True) \<and>
            (\<forall>r. PoissonWasserstein_R2 eng dblquad tau rho f h numerical \<noteq> Inr (Exact r)) \<and>
            (\<forall>r. PoissonWasserstein_T2 eng dblquad tau rho f h numerical \<noteq> Inr (Exact r)) \<and>
            (\<forall>r. PoissonWasserstein_S2 eng dblquad tau rho f h numerical \<noteq> Inr (Exact r))) \<and>
         (\<not> eq_True numerical \<longrightarrow>
            PoissonWasserstein_R2 eng dblquad tau rho f h numerical
              = PoissonWasserstein_R2 eng dblquad tau rho f h (PyBool False) \<and>
            PoissonWasserstein_T2 eng dblquad tau rho f h numerical
              = PoissonWasserstein_T2 eng dblquad tau rho f h (PyBool False) \<and>
            PoissonWasserstein_S2 eng dblquad tau rho f h numerical
              = PoissonWasserstein_S2 eng dblquad tau rho f h (PyBool False) \<and>
            (\<forall>r. PoissonWasserstein_R2 eng dblquad tau rho f h numerical \<noteq> Inr (Numeric r)) \<and>
            (\<forall>r. PoissonWasserstein_T2 eng dblquad tau rho f h numerical \<noteq> Inr (Numeric r)) \<and>
            (\<forall>r. PoissonWasserstein_S2 eng dblquad tau rho f h numerical \<noteq> Inr (Numeric r))) \<and>
         (\<forall>s. s \<noteq> [] \<longrightarrow> truthy (PyStr s) \<and> \<not> eq_True (PyStr s))"
  unfolding PoissonWasserstein_R2_def PoissonWasserstein_T2_def PoissonWasserstein_S2_def Let_def
  by (auto intro!: and_then_no_result)

text \<open>
  On the reference collaborators the flag \<^verbatim>\<open>"yes"\<close> gives the exact result of the
  square scenario, and the flag \<^verbatim>\<open>1\<close> gives the numerical pair.
\<close>

theorem numerical_flag_witness:
  "truthy (PyStr ''yes'') \<and>
   PoissonWasserstein_R2 exact_engine (dblquad_nested newton_quad) ''1'' ''1'' ''x1'' ''x2''
     (PyStr ''yes'') = Inr (Exact 1) \<and>
   PoissonWasserstein_R2 exact_engine (dblquad_nested newton_quad) ''1'' ''1'' ''x1'' ''x2''
     (PyInt 1) = Inr (Numeric (1, 0))"
  using numerical_flag [of "PyStr ''yes''" exact_engine "dblquad_nested newton_quad"
      "''1''" "''1''" "''x1''" "''x2''"]
    numerical_flag [of "PyInt 1" exact_engine "dblquad_nested newton_quad"
      "''1''" "''1''" "''x1''" "''x2''"]
    R2_square_exact [of "PyBool False" "dblquad_nested newton_quad"]
    R2_square_numeric [of "PyBool True"]
  by simp

end
